theory Spec2Isabelle
  imports Complex_Main "HOL-Library.Sublist"
begin

section \<open>JavaScript values and property lookup\<close>

text \<open>
  The gateway keeps its routing tables in plain object literals (\<^verbatim>\<open>MODEL_MAPPING\<close>,
  \<^verbatim>\<open>MODEL_PROVIDER\<close>, \<^verbatim>\<open>FALLBACK_MAPPING\<close>) and reads them with \<^verbatim>\<open>table[key]\<close>.
  Such a read first looks at the object's own properties and then at
  \<^verbatim>\<open>Object.prototype\<close>, so a key like \<^verbatim>\<open>constructor\<close> yields an inherited member
  (a function, or for \<^verbatim>\<open>__proto__\<close> the prototype object itself) and not
  \<^verbatim>\<open>undefined\<close>. The tables' own properties are association lists of strings, as the
  literals in the source are; the first pair with a key is the property.
\<close>

datatype js_value = Undefined | Str string | Inherited string

type_synonym table = "(string \<times> string) list"

definition object_prototype_keys :: "string list" where
  "object_prototype_keys =
     [''constructor'', ''__defineGetter__'', ''__defineSetter__'', ''hasOwnProperty'',
      ''__lookupGetter__'', ''__lookupSetter__'', ''isPrototypeOf'',
      ''propertyIsEnumerable'', ''toString'', ''valueOf'', ''__proto__'',
      ''toLocaleString'']"

definition js_get :: "table \<Rightarrow> string \<Rightarrow> js_value" where
  "js_get obj k =
     (case map_of obj k of
        Some v \<Rightarrow> Str v
      | None \<Rightarrow> if k \<in> set object_prototype_keys then Inherited k else Undefined)"

fun truthy :: "js_value \<Rightarrow> bool" where
  "truthy Undefined = False"
| "truthy (Str s) = (s \<noteq> [])"
| "truthy (Inherited k) = True"

definition js_or :: "js_value \<Rightarrow> js_value \<Rightarrow> js_value" where
  "js_or a b = (if truthy a then a else b)"

text \<open>
  A value used as a property key is converted to a string first. Node prints a built-in
  function as its native-code text and a plain object as \<^verbatim>\<open>[object Object]\<close>.
\<close>

fun to_property_key :: "js_value \<Rightarrow> string" where
  "to_property_key Undefined = ''undefined''"
| "to_property_key (Str s) = s"
| "to_property_key (Inherited k) =
     (if k = ''__proto__'' then ''[object Object]''
      else ''function '' @ (if k = ''constructor'' then ''Object'' else k) @
           ''() { [native code] }'')"

section \<open>The tables of the gateway\<close>

definition MODEL_MAPPING :: table where
  "MODEL_MAPPING =
     [(''gpt-3.5-turbo'', ''deepseek/deepseek-r1-0528:free''),
      (''gpt-3.5-turbo-instruct'', ''deepseek/deepseek-r1-0528:free''),
      (''gpt-3.5-turbo-16k'', ''deepseek/deepseek-r1-0528:free''),
      (''gpt-4'', ''deepseek/deepseek-r1-0528:free''),
      (''gpt-4-turbo'', ''deepseek/deepseek-r1-0528:free''),
      (''gpt-4o'', ''qwen/qwen3-235b-a22b:free''),
      (''gpt-4o-mini'', ''qwen/qwen3-next-80b-a3b-instruct:free''),
      (''gpt-4o-mini-2024-07-18'', ''qwen/qwen3-next-80b-a3b-instruct:free''),
      (''gpt-5'', ''qwen/qwen3-235b-a22b:free''),
      (''gpt-5-turbo'', ''qwen/qwen3-next-80b-a3b-instruct:free''),
      (''gpt-5-nano'', ''opencode/gpt-5-nano:free''),
      (''gpt-5-preview'', ''qwen/qwen3-235b-a22b:free''),
      (''text-embedding-ada-002'', ''mistralai/mistral-embed:free''),
      (''text-davinci-003'', ''mistralai/mistral-embed:free''),
      (''gpt-4-vision-preview'', ''qwen/qwen3-vl-235b-a22b-thinking:free''),
      (''gpt-4-vision'', ''qwen/qwen3-vl-30b-a3b-thinking:free''),
      (''gpt-4o-vision'', ''qwen/qwen3-vl-235b-a22b-thinking:free''),
      (''gpt-4-code'', ''qwen/qwen3-coder:free''),
      (''code-davinci-002'', ''qwen/qwen3-coder:free''),
      (''mistral-small'', ''mistralai/mistral-small-3.1-24b-instruct:free''),
      (''mistral-tiny'', ''mistralai/mistral-small-2501:free''),
      (''llama-3.2'', ''meta-llama/llama-3.2-3b-instruct:free''),
      (''llama-3.3'', ''meta-llama/llama-3.3-70b-instruct:free''),
      (''gemma-7b'', ''google/gemma-2-9b-it:free''),
      (''gemma-2b'', ''google/gemma-2-2b-it:free''),
      (''opencode-big-pickle'', ''opencode/big-pickle:free''),
      (''opencode-glm-5'', ''opencode/glm-5-free:free''),
      (''opencode-gpt-5-nano'', ''opencode/gpt-5-nano:free''),
      (''opencode-kimi-k2.5'', ''opencode/kimi-k2.5-free:free''),
      (''opencode-minimax-m2.5'', ''opencode/minimax-m2.5-free:free''),
      (''gemini-3-flash'', ''gemini-3-flash-preview''),
      (''gemini-3-pro'', ''gemini-3-pro-preview''),
      (''gemini-2.0-flash'', ''gemini-2.0-flash-exp''),
      (''gemini-1.5-flash'', ''gemini-1.5-flash''),
      (''gemini-1.5-pro'', ''gemini-1.5-pro''),
      (''default'', ''deepseek/deepseek-r1-0528:free'')]"

definition MODEL_PROVIDER :: table where
  "MODEL_PROVIDER =
     [(''gemini-3-flash-preview'', ''gemini''),
      (''gemini-3-pro-preview'', ''gemini''),
      (''gemini-2.0-flash-exp'', ''gemini''),
      (''gemini-1.5-flash'', ''gemini''),
      (''gemini-1.5-pro'', ''gemini'')]"

definition FALLBACK_MAPPING :: table where
  "FALLBACK_MAPPING =
     [(''deepseek/deepseek-r1-0528:free'', ''qwen/qwen3-235b-a22b:free''),
      (''qwen/qwen3-235b-a22b:free'', ''qwen/qwen3-next-80b-a3b-instruct:free''),
      (''qwen/qwen3-next-80b-a3b-instruct:free'',
         ''mistralai/mistral-small-3.1-24b-instruct:free''),
      (''qwen/qwen3-coder:free'', ''mistralai/mistral-small-3.1-24b-instruct:free''),
      (''qwen/qwen3-vl-235b-a22b-thinking:free'', ''qwen/qwen3-vl-30b-a3b-thinking:free''),
      (''qwen/qwen3-vl-30b-a3b-thinking:free'',
         ''mistralai/mistral-small-3.1-24b-instruct:free''),
      (''mistralai/mistral-small-3.1-24b-instruct:free'',
         ''mistralai/mistral-small-2501:free''),
      (''mistralai/mistral-small-2501:free'', ''meta-llama/llama-3.3-70b-instruct:free''),
      (''meta-llama/llama-3.3-70b-instruct:free'', ''meta-llama/llama-3.2-3b-instruct:free''),
      (''meta-llama/llama-3.2-3b-instruct:free'', ''google/gemma-2-9b-it:free''),
      (''google/gemma-2-9b-it:free'', ''google/gemma-2-2b-it:free''),
      (''opencode/big-pickle:free'', ''opencode/glm-5-free:free''),
      (''opencode/glm-5-free:free'', ''opencode/gpt-5-nano:free''),
      (''opencode/gpt-5-nano:free'', ''opencode/kimi-k2.5-free:free''),
      (''opencode/kimi-k2.5-free:free'', ''opencode/minimax-m2.5-free:free''),
      (''opencode/minimax-m2.5-free:free'', ''deepseek/deepseek-r1-0528:free'')]"

section \<open>Model resolution\<close>

text \<open>
  \<^verbatim>\<open>const model = MODEL_MAPPING[requestedModel] || MODEL_MAPPING.default;\<close> on the chat
  route, and
  \<^verbatim>\<open>MODEL_MAPPING[requestedModel] || MODEL_MAPPING['text-embedding-ada-002']\<close> on the
  embeddings route. The mapping is mutable (\<^verbatim>\<open>POST /config/models\<close>), so it is a
  parameter.
\<close>

definition resolve_chat_model :: "table \<Rightarrow> string \<Rightarrow> js_value" where
  "resolve_chat_model mapping requestedModel =
     js_or (js_get mapping requestedModel) (js_get mapping ''default'')"

definition resolve_embedding_model :: "table \<Rightarrow> string \<Rightarrow> js_value" where
  "resolve_embedding_model mapping requestedModel =
     js_or (js_get mapping requestedModel) (js_get mapping ''text-embedding-ada-002'')"

text \<open>\<^verbatim>\<open>const provider = MODEL_PROVIDER[model] || 'openrouter';\<close>\<close>

definition provider_of :: "table \<Rightarrow> js_value \<Rightarrow> js_value" where
  "provider_of providers model =
     js_or (js_get providers (to_property_key model)) (Str ''openrouter'')"

section \<open>JSON text and the cache key\<close>

text \<open>
  Request bodies arrive through the JSON body parser, so their values are JSON values. A
  number is held as the text \<^verbatim>\<open>JSON.stringify\<close> prints for it; an object is the list of
  its fields in the order \<^verbatim>\<open>JSON.stringify\<close> visits them (insertion order, for keys
  that are not array indices). Strings are byte strings: a byte below 0x20, the quote and
  the backslash are escaped, every other byte is copied.
\<close>

datatype json =
    JNull
  | JBool bool
  | JNum string
  | JStr string
  | JArr "json list"
  | JObj "(string \<times> json) list"

definition dq :: char where
  "dq = CHR 0x22"

definition bsl :: char where
  "bsl = CHR 0x5C"

definition hex_digit :: "nat \<Rightarrow> char" where
  "hex_digit n = ''0123456789abcdef'' ! (n mod 16)"

definition escape_char :: "char \<Rightarrow> string" where
  "escape_char c =
     (if c = dq then [bsl, dq]
      else if c = bsl then [bsl, bsl]
      else if c = CHR 0x08 then [bsl, CHR ''b'']
      else if c = CHR 0x09 then [bsl, CHR ''t'']
      else if c = CHR 0x0A then [bsl, CHR ''n'']
      else if c = CHR 0x0C then [bsl, CHR ''f'']
      else if c = CHR 0x0D then [bsl, CHR ''r'']
      else if (of_char c :: nat) < 32
        then [bsl, CHR ''u'', CHR ''0'', CHR ''0'',
              hex_digit (of_char c div 16), hex_digit (of_char c mod 16)]
      else [c])"

definition quote :: "string \<Rightarrow> string" where
  "quote s = dq # concat (map escape_char s) @ [dq]"

fun join_commas :: "string list \<Rightarrow> string" where
  "join_commas [] = []"
| "join_commas [x] = x"
| "join_commas (x # y # ys) = x @ '','' @ join_commas (y # ys)"

fun stringify :: "json \<Rightarrow> string"
  and stringify_items :: "json list \<Rightarrow> string list"
  and stringify_fields :: "(string \<times> json) list \<Rightarrow> string list" where
  "stringify JNull = ''null''"
| "stringify (JBool b) = (if b then ''true'' else ''false'')"
| "stringify (JNum n) = n"
| "stringify (JStr s) = quote s"
| "stringify (JArr xs) = ''['' @ join_commas (stringify_items xs) @ '']''"
| "stringify (JObj kvs) = ''{'' @ join_commas (stringify_fields kvs) @ ''}''"
| "stringify_items [] = []"
| "stringify_items (x # xs) = stringify x # stringify_items xs"
| "stringify_fields [] = []"
| "stringify_fields ((k, v) # kvs) = (quote k @ '':'' @ stringify v) # stringify_fields kvs"

text \<open>
  \<^verbatim>\<open>generateCacheKey(model, messages, options)\<close> is
  \<^verbatim>\<open>JSON.stringify({ model, messages, options })\<close>. A property whose value is
  \<^verbatim>\<open>undefined\<close> or a function is left out of the text; the bare prototype object prints
  as \<^verbatim>\<open>{}\<close>.
\<close>

fun model_field :: "js_value \<Rightarrow> string list" where
  "model_field Undefined = []"
| "model_field (Str s) = [quote ''model'' @ '':'' @ quote s]"
| "model_field (Inherited k) =
     (if k = ''__proto__'' then [quote ''model'' @ '':'' @ ''{}''] else [])"

definition generateCacheKey :: "js_value \<Rightarrow> json \<Rightarrow> (string \<times> json) list \<Rightarrow> string" where
  "generateCacheKey model messages options =
     ''{'' @ join_commas (model_field model @
                          [quote ''messages'' @ '':'' @ stringify messages,
                           quote ''options'' @ '':'' @ stringify (JObj options)]) @ ''}''"

section \<open>Configuration, upstream calls and errors\<close>

text \<open>
  The environment knobs are read once at start-up with \<^verbatim>\<open>parseInt\<close>; an unset key
  is the empty string here (both are falsy in the source's \<^verbatim>\<open>!KEY\<close> tests). The
  Gemini client exists exactly when \<^verbatim>\<open>GEMINI_API_KEY\<close> is set. The record holds the
  knobs of a gateway whose environment values parse to numbers; what the retry functions do
  when \<^verbatim>\<open>MAX_RETRIES\<close> parses to \<^verbatim>\<open>NaN\<close> is the subject of the functions
  \<open>fetchOpenRouterWithRetry_env\<close> and \<open>fetchGeminiWithRetry_env\<close> below.
\<close>

record config =
  MAX_RETRIES :: int
  RETRY_DELAY :: int
  CACHE_TTL :: int
  OPENROUTER_API_KEY :: string
  GEMINI_API_KEY :: string
  model_mapping :: table
  model_provider :: table
  fallback_mapping :: table

definition geminiClient :: "config \<Rightarrow> bool" where
  "geminiClient cfg = (GEMINI_API_KEY cfg \<noteq> [])"

text \<open>
  What a rejected \<^verbatim>\<open>axios.post\<close> (or a thrown \<^verbatim>\<open>Error\<close>) carries: the message, the
  error code (empty when absent) and, when the upstream answered, the HTTP status with the
  body of the answer. Of the body only \<^verbatim>\<open>data.error?.message\<close> is ever read: the body is
  \<^verbatim>\<open>null\<close> or absent, so that reading \<^verbatim>\<open>data.error\<close> throws, or it gives a message text
  (empty when it has none).
\<close>

datatype error_body = NullBody | ErrorMessage string

record axios_error =
  err_message :: string
  err_code :: string
  err_response :: "(nat \<times> error_body) option"

text \<open>
  The body of a successful upstream answer is a JSON object, held as its fields. The
  upstream is an oracle: the outcome of the \<open>n\<close>-th call of one client request, sent for a
  given \<^verbatim>\<open>data.model\<close>.
\<close>

type_synonym response_data = "(string \<times> json) list"

type_synonym upstream = "nat \<Rightarrow> js_value \<Rightarrow> axios_error + response_data"

section \<open>Retry with fallback\<close>

text \<open>
  The values a fallback lookup can give are the table's values and the inherited members;
  the models among them that are neither used nor current bound the remaining fallback
  switches.
\<close>

definition fallback_values :: "table \<Rightarrow> js_value set" where
  "fallback_values fb = Str ` snd ` set fb \<union> Inherited ` set object_prototype_keys"

definition switches_left :: "table \<Rightarrow> js_value \<Rightarrow> js_value list \<Rightarrow> nat" where
  "switches_left fb currentModel modelFallbacks =
     2 * card (fallback_values fb - set modelFallbacks - {currentModel}) +
     (if currentModel \<in> set modelFallbacks then 0 else 1)"

lemma finite_fallback_values: "finite (fallback_values fb)"
  by (simp add: fallback_values_def)

lemma js_get_in_fallback_values: "truthy (js_get fb k) \<Longrightarrow> js_get fb k \<in> fallback_values fb"
proof (cases "map_of fb k")
  case None
  assume "truthy (js_get fb k)"
  with None show ?thesis
    by (simp add: js_get_def fallback_values_def split: if_splits)
next
  case (Some v)
  then have "(k, v) \<in> set fb"
    by (rule map_of_SomeD)
  then have "Str v \<in> Str ` snd ` set fb"
    by force
  with Some show ?thesis
    by (simp add: js_get_def fallback_values_def)
qed

lemma switches_left_decreases:
  assumes "truthy (js_get fb k)" and "js_get fb k \<notin> set used"
  shows "switches_left fb (js_get fb k) (used @ [m]) < switches_left fb m used"
proof (cases "js_get fb k = m")
  case True
  with assms have "m \<notin> set used" by simp
  moreover have "fallback_values fb - set (used @ [m]) - {m} = fallback_values fb - set used - {m}"
    by auto
  ultimately show ?thesis
    using True by (simp add: switches_left_def)
next
  case False
  let ?f = "js_get fb k"
  let ?old = "fallback_values fb - set used - {m}"
  have in_old: "?f \<in> ?old"
    using assms False by (simp add: js_get_in_fallback_values)
  have eq: "fallback_values fb - set (used @ [m]) - {?f} = ?old - {?f}"
    by auto
  have lt: "card (?old - {?f}) < card ?old"
    using in_old finite_fallback_values [of fb] by (intro card_Diff1_less) auto
  have "switches_left fb ?f (used @ [m]) =
        2 * card (?old - {?f}) + (if ?f \<in> set (used @ [m]) then 0 else 1)"
    by (simp only: switches_left_def eq)
  then have "switches_left fb ?f (used @ [m]) \<le> 2 * card (?old - {?f}) + 1"
    by simp
  moreover have "2 * card ?old \<le> switches_left fb m used"
    by (simp add: switches_left_def)
  ultimately show ?thesis
    using lt by linarith
qed

text \<open>
  \<^verbatim>\<open>fetchOpenRouterWithRetry(url, data, headers, retries = 0, modelFallbacks = [])\<close>.
  The result is what the promise settles to, together with the log of the
  \<^verbatim>\<open>axios.post\<close> calls it made: the \<^verbatim>\<open>data.model\<close> of each call, in order. The
  back-off wait between two attempts changes no value and is left out.
\<close>

function fetchOpenRouterWithRetry ::
  "int \<Rightarrow> table \<Rightarrow> upstream \<Rightarrow> nat \<Rightarrow> js_value \<Rightarrow> int \<Rightarrow> js_value list \<Rightarrow>
   (axios_error + response_data) \<times> js_value list" where
  "fetchOpenRouterWithRetry maxr fb up n currentModel retries modelFallbacks =
     (case up n currentModel of
        Inr d \<Rightarrow> (Inr d, [currentModel])
      | Inl error \<Rightarrow>
          if retries \<ge> maxr - 1 then
            (let fallbackModel = js_get fb (to_property_key currentModel) in
             if truthy fallbackModel \<and> fallbackModel \<notin> set modelFallbacks then
               (case fetchOpenRouterWithRetry maxr fb up (Suc n) fallbackModel 0
                       (modelFallbacks @ [currentModel]) of
                  (r, calls) \<Rightarrow> (r, currentModel # calls))
             else (Inl error, [currentModel]))
          else
            (case fetchOpenRouterWithRetry maxr fb up (Suc n) currentModel (retries + 1)
                    modelFallbacks of
               (r, calls) \<Rightarrow> (r, currentModel # calls)))"
  by pat_completeness auto
termination
proof (relation "(\<lambda>(maxr, fb, up, n, m, retries, used). switches_left fb m used) <*mlex*>
                 measure (\<lambda>(maxr, fb, up, n, m, retries, used). nat (maxr - 1 - retries))",
       goal_cases)
  case 1
  show ?case by (simp add: wf_mlex)
next
  case (2 maxr fb up n currentModel retries modelFallbacks error fallbackModel)
  then show ?case
    by (auto intro!: mlex_less switches_left_decreases)
next
  case (3 maxr fb up n currentModel retries modelFallbacks error)
  then show ?case
    by (auto intro!: mlex_leq)
qed

text \<open>
  The models the executor visits when every call fails: the walk along the fallback table
  that the function above takes, without the calls.
\<close>

function fallback_chain :: "table \<Rightarrow> js_value \<Rightarrow> js_value list \<Rightarrow> js_value list" where
  "fallback_chain fb currentModel modelFallbacks =
     currentModel #
     (let fallbackModel = js_get fb (to_property_key currentModel) in
      if truthy fallbackModel \<and> fallbackModel \<notin> set modelFallbacks
      then fallback_chain fb fallbackModel (modelFallbacks @ [currentModel]) else [])"
  by pat_completeness auto
termination
proof (relation "measure (\<lambda>(fb, m, used). switches_left fb m used)", goal_cases)
  case 1
  show ?case by simp
next
  case (2 fb currentModel modelFallbacks fallbackModel)
  then show ?case
    by (auto intro!: switches_left_decreases)
qed

declare fetchOpenRouterWithRetry.simps [simp del]

declare fallback_chain.simps [simp del]

text \<open>
  A round is the run of attempts against one model between two fallback switches. A round
  entered with counter \<open>retries\<close> stops retrying once \<^verbatim>\<open>retries >= MAX_RETRIES - 1\<close>, and the
  test comes after the attempt, so it has \<open>max 1 (MAX_RETRIES - retries)\<close> attempts when all
  fail. The schedule lists the calls of a request whose every call fails.
\<close>

definition attempts_from :: "int \<Rightarrow> int \<Rightarrow> nat" where
  "attempts_from maxr retries = nat (max 1 (maxr - retries))"

definition schedule :: "int \<Rightarrow> table \<Rightarrow> js_value \<Rightarrow> int \<Rightarrow> js_value list \<Rightarrow> js_value list" where
  "schedule maxr fb currentModel retries modelFallbacks =
     replicate (attempts_from maxr retries) currentModel @
     concat (map (replicate (attempts_from maxr 0))
               (tl (fallback_chain fb currentModel modelFallbacks)))"


subsection \<open>The Gemini variant\<close>

text \<open>
  \<^verbatim>\<open>fetchGeminiWithRetry(model, messages, options = {}, retries = 0)\<close> throws at once when
  there is no client. Inside its \<^verbatim>\<open>try\<close> it first walks the messages: that fails, with no
  call to the SDK, when \<^verbatim>\<open>messages\<close> is not an array, holds a \<^verbatim>\<open>null\<close>, or has no message
  of role \<^verbatim>\<open>user\<close>. Everything from \<^verbatim>\<open>getGenerativeModel\<close> to the returned object is one
  upstream call.
\<close>

definition is_user_message :: "json \<Rightarrow> bool" where
  "is_user_message m =
     (case m of JObj fs \<Rightarrow> map_of fs ''role'' = Some (JStr ''user'') | _ \<Rightarrow> False)"

definition plain_error :: "string \<Rightarrow> axios_error" where
  "plain_error msg = \<lparr>err_message = msg, err_code = [], err_response = None\<rparr>"

definition gemini_local_error :: "json \<Rightarrow> axios_error option" where
  "gemini_local_error messages =
     (case messages of
        JArr ms \<Rightarrow>
          if JNull \<in> set ms then Some (plain_error ''TypeError'')
          else if filter is_user_message ms = [] then Some (plain_error ''No user message found'')
          else None
      | _ \<Rightarrow> Some (plain_error ''TypeError''))"

definition gemini_attempt ::
  "upstream \<Rightarrow> nat \<Rightarrow> js_value \<Rightarrow> json \<Rightarrow> (axios_error + response_data) \<times> js_value list" where
  "gemini_attempt up n model messages =
     (case gemini_local_error messages of
        Some e \<Rightarrow> (Inl e, [])
      | None \<Rightarrow> (up n model, [model]))"

function fetchGeminiWithRetry ::
  "bool \<Rightarrow> int \<Rightarrow> upstream \<Rightarrow> nat \<Rightarrow> js_value \<Rightarrow> json \<Rightarrow> int \<Rightarrow>
   (axios_error + response_data) \<times> js_value list" where
  "fetchGeminiWithRetry client maxr up n model messages retries =
     (if \<not> client then
        (Inl (plain_error
           ''Gemini API client not configured. Set GEMINI_API_KEY in environment variables.''),
         [])
      else
        (case gemini_attempt up n model messages of
           (Inr d, made) \<Rightarrow> (Inr d, made)
         | (Inl error, made) \<Rightarrow>
             if retries \<ge> maxr - 1 then (Inl error, made)
             else
               (case fetchGeminiWithRetry client maxr up (n + length made) model messages
                       (retries + 1) of
                  (r, calls) \<Rightarrow> (r, made @ calls))))"
  by pat_completeness auto
termination
  by (relation "measure (\<lambda>(client, maxr, up, n, model, messages, retries).
                  nat (maxr - 1 - retries))") auto

declare fetchGeminiWithRetry.simps [simp del]

subsection \<open>\<^verbatim>\<open>MAX_RETRIES\<close> as it is parsed\<close>





section \<open>The response cache and its timers\<close>

text \<open>
  \<^verbatim>\<open>responseCache\<close> is a \<^verbatim>\<open>Map\<close> from cache key to the response object. Every insertion
  is followed by \<^verbatim>\<open>setTimeout(() => responseCache.delete(cacheKey), CACHE_TTL)\<close>; the
  pending timers are part of the state, each with the time it is due and the key it
  deletes. Node runs a timer with a delay below 1 or above 2147483647 after 1 ms. Time is
  in milliseconds and comes from the environment; a timer that is due has run before the
  gateway looks at the cache again.
\<close>

record chat_completion =
  cc_id :: "json option"
  cc_created :: nat
  cc_model :: string
  cc_choices :: "json option"
  cc_usage :: "json option"

record gateway_state =
  responseCache :: "string \<Rightarrow> chat_completion option"
  timers :: "(nat \<times> string) list"

definition timeout_delay :: "int \<Rightarrow> nat" where
  "timeout_delay ms = (if ms < 1 \<or> 2147483647 < ms then 1 else nat ms)"

definition run_timers :: "nat \<Rightarrow> gateway_state \<Rightarrow> gateway_state" where
  "run_timers now st =
     \<lparr>responseCache =
        (\<lambda>k. if k \<in> snd ` set (filter (\<lambda>x. fst x \<le> now) (timers st)) then None
             else responseCache st k),
      timers = filter (\<lambda>x. now < fst x) (timers st)\<rparr>"

definition cache_insert ::
  "config \<Rightarrow> nat \<Rightarrow> string \<Rightarrow> chat_completion \<Rightarrow> gateway_state \<Rightarrow> gateway_state" where
  "cache_insert cfg now cacheKey response st =
     \<lparr>responseCache = (responseCache st)(cacheKey \<mapsto> response),
      timers = timers st @ [(now + timeout_delay (CACHE_TTL cfg), cacheKey)]\<rparr>"

text \<open>\<^verbatim>\<open>POST /config/clear-cache\<close>: \<^verbatim>\<open>responseCache.clear()\<close>; the timers stay pending.\<close>

definition clear_cache :: "gateway_state \<Rightarrow> gateway_state" where
  "clear_cache st = st\<lparr>responseCache := (\<lambda>k. None)\<rparr>"

definition initial_state :: gateway_state where
  "initial_state = \<lparr>responseCache = (\<lambda>k. None), timers = []\<rparr>"

section \<open>The routes\<close>

record chat_request =
  req_model :: string
  req_messages :: json
  req_stream :: bool
  req_options :: "(string \<times> json) list"

record embedding_request =
  emb_model :: string
  emb_input :: json
  emb_options :: "(string \<times> json) list"

record embedding_list =
  el_data :: "json option"
  el_model :: string
  el_usage :: "json option"

text \<open>
  What the client gets: a completion or an embedding list (status 200), an error body
  with its status, message, type and code, or an event stream: the headers set, the
  chunks written, and whether \<^verbatim>\<open>res.end()\<close> was called; or nothing at all, when the
  handler dies before it answers.
\<close>

datatype reply =
    Completion chat_completion
  | EmbeddingList embedding_list
  | Failure nat string string string
  | EventStream "(string \<times> string) list" "string list" bool
  | NoReply

text \<open>
  \<^verbatim>\<open>handleError(error, res)\<close> answers with the upstream's status and message, or with 500.
  It throws, before it has sent anything, when the upstream answered with no body
  (the value \<open>None\<close>).
\<close>

definition handleError :: "axios_error \<Rightarrow> reply option" where
  "handleError error =
     (case err_response error of
        Some (status, NullBody) \<Rightarrow> None
      | Some (status, ErrorMessage upstream_message) \<Rightarrow>
          Some (Failure status
                  (if upstream_message = [] then ''Internal server error'' else upstream_message)
                  ''api_error'' ''internal_error'')
      | None \<Rightarrow> Some (Failure 500 ''Internal server error'' ''api_error'' ''internal_error''))"

text \<open>
  On the chat route every \<^verbatim>\<open>handleError\<close> call sits in a \<^verbatim>\<open>catch\<close> inside the outer
  \<^verbatim>\<open>try\<close>: when it throws, the outer \<^verbatim>\<open>catch\<close> calls \<^verbatim>\<open>handleError\<close> again with the
  \<^verbatim>\<open>TypeError\<close>, which has no response and is answered with 500. On the embeddings route
  the call sits in the only \<^verbatim>\<open>catch\<close>: when it throws, nothing is sent.
\<close>

definition chat_error_reply :: "axios_error \<Rightarrow> reply" where
  "chat_error_reply error =
     (case handleError error of
        Some r \<Rightarrow> r
      | None \<Rightarrow> Failure 500 ''Internal server error'' ''api_error'' ''internal_error'')"

definition embeddings_error_reply :: "axios_error \<Rightarrow> reply" where
  "embeddings_error_reply error = (case handleError error of Some r \<Rightarrow> r | None \<Rightarrow> NoReply)"

text \<open>
  A streaming \<^verbatim>\<open>axios.post\<close> is either rejected before any body arrives, or resolves to
  a body stream: the chunks that arrive, and whether the stream then ends (\<open>True\<close>) or fails
  (\<open>False\<close>). \<^verbatim>\<open>openRouterResponse.data.pipe(res)\<close> copies every chunk to the client and
  ends the client's response when the source ends; when the source fails it writes nothing
  and does not end the response. The \<^verbatim>\<open>catch\<close> of the stream branch runs only for the
  rejected call, since the \<^verbatim>\<open>await\<close> is over once the stream exists.
\<close>

datatype stream_outcome = Rejected axios_error | Piped "string list" bool

definition error_event :: string where
  "error_event =
     ''data: '' @ stringify (JObj [(''error'', JObj [(''message'', JStr ''Stream error occurred'')])])
     @ [CHR 0x0A, CHR 0x0A]"

definition done_event :: string where
  "done_event = ''data: [DONE]'' @ [CHR 0x0A, CHR 0x0A]"

definition sse_headers :: "(string \<times> string) list" where
  "sse_headers =
     [(''Content-Type'', ''text/event-stream''), (''Cache-Control'', ''no-cache''),
      (''Connection'', ''keep-alive'')]"

definition stream_relay :: "stream_outcome \<Rightarrow> reply" where
  "stream_relay outcome =
     (case outcome of
        Rejected error \<Rightarrow> EventStream [] [error_event, done_event] True
      | Piped chunks finished \<Rightarrow> EventStream sse_headers chunks finished)"

definition completion_of :: "string \<Rightarrow> nat \<Rightarrow> response_data \<Rightarrow> chat_completion" where
  "completion_of requestedModel now d =
     \<lparr>cc_id = map_of d ''id'', cc_created = now div 1000, cc_model = requestedModel,
      cc_choices = map_of d ''choices'', cc_usage = map_of d ''usage''\<rparr>"

text \<open>
  \<^verbatim>\<open>app.post('/v1/chat/completions', ...)\<close>. The result is the reply, the upstream calls
  made, and the new state. The request is looked at at time \<open>now\<close>; \<open>latency\<close> is the time
  from then until the executor has its result, back-off waits included. No other request
  is handled in between.
\<close>

definition cache_key_of :: "config \<Rightarrow> chat_request \<Rightarrow> string" where
  "cache_key_of cfg req =
     generateCacheKey (resolve_chat_model (model_mapping cfg) (req_model req))
       (req_messages req) (req_options req)"

definition respond_and_cache ::
  "config \<Rightarrow> nat \<Rightarrow> string \<Rightarrow> string \<Rightarrow> response_data \<Rightarrow> js_value list \<Rightarrow> gateway_state \<Rightarrow>
   reply \<times> js_value list \<times> gateway_state" where
  "respond_and_cache cfg finished cacheKey requestedModel d calls st =
     (let openAIResponse = completion_of requestedModel finished d
      in (Completion openAIResponse, calls,
          cache_insert cfg finished cacheKey openAIResponse (run_timers finished st)))"

definition chat_completions ::
  "config \<Rightarrow> upstream \<Rightarrow> (js_value \<Rightarrow> stream_outcome) \<Rightarrow> nat \<Rightarrow> nat \<Rightarrow> chat_request \<Rightarrow>
   gateway_state \<Rightarrow> reply \<times> js_value list \<times> gateway_state" where
  "chat_completions cfg up stream_up now latency req st0 =
     (let st = run_timers now st0;
          model = resolve_chat_model (model_mapping cfg) (req_model req);
          provider = provider_of (model_provider cfg) model;
          cacheKey = generateCacheKey model (req_messages req) (req_options req)
      in case (if req_stream req then None else responseCache st cacheKey) of
           Some cached \<Rightarrow> (Completion cached, [], st)
         | None \<Rightarrow>
             if provider = Str ''gemini'' then
               if \<not> geminiClient cfg then
                 (Failure 503 ''Gemini API is not configured. Please set GEMINI_API_KEY.''
                    ''configuration_error'' ''gemini_not_configured'', [], st)
               else if req_stream req then
                 (Failure 501 ''Streaming is not yet supported for Gemini models''
                    ''not_implemented'' ''streaming_not_supported'', [], st)
               else
                 (case fetchGeminiWithRetry (geminiClient cfg) (MAX_RETRIES cfg) up 0 model
                         (req_messages req) 0 of
                    (Inr d, calls) \<Rightarrow>
                      respond_and_cache cfg (now + latency) cacheKey (req_model req) d calls st
                  | (Inl error, calls) \<Rightarrow>
                      (chat_error_reply error, calls, run_timers (now + latency) st))
             else if OPENROUTER_API_KEY cfg = [] then
               (Failure 503 ''OpenRouter API is not configured. Please set OPENROUTER_API_KEY.''
                  ''configuration_error'' ''openrouter_not_configured'', [], st)
             else if req_stream req then
               (stream_relay (stream_up model), [model], st)
             else
               (case fetchOpenRouterWithRetry (MAX_RETRIES cfg) (fallback_mapping cfg) up 0
                       model 0 [] of
                  (Inr d, calls) \<Rightarrow>
                    respond_and_cache cfg (now + latency) cacheKey (req_model req) d calls st
                | (Inl error, calls) \<Rightarrow>
                    (chat_error_reply error, calls, run_timers (now + latency) st)))"

text \<open>\<^verbatim>\<open>app.post('/v1/embeddings', ...)\<close>: the reply and the upstream calls made.\<close>

definition embeddings :: "config \<Rightarrow> upstream \<Rightarrow> embedding_request \<Rightarrow> reply \<times> js_value list" where
  "embeddings cfg up req =
     (let model = resolve_embedding_model (model_mapping cfg) (emb_model req)
      in case fetchOpenRouterWithRetry (MAX_RETRIES cfg) (fallback_mapping cfg) up 0 model 0 [] of
           (Inr d, calls) \<Rightarrow>
             (EmbeddingList
                \<lparr>el_data = map_of d ''data'', el_model = emb_model req,
                 el_usage = map_of d ''usage''\<rparr>, calls)
         | (Inl error, calls) \<Rightarrow> (embeddings_error_reply error, calls))"

text \<open>The configuration the source starts with, both keys set.\<close>

definition default_config :: config where
  "default_config =
     \<lparr>MAX_RETRIES = 3, RETRY_DELAY = 1000, CACHE_TTL = 3600000,
      OPENROUTER_API_KEY = ''sk-or-key'', GEMINI_API_KEY = ''gemini-key'',
      model_mapping = MODEL_MAPPING, model_provider = MODEL_PROVIDER,
      fallback_mapping = FALLBACK_MAPPING\<rparr>"

text \<open>
  A run of chat requests, handled one after the other: each with the time it is looked at,
  its latency, and what the upstream answers to it.
\<close>

record chat_event =
  ev_up :: upstream
  ev_stream_up :: "js_value \<Rightarrow> stream_outcome"
  ev_now :: nat
  ev_latency :: nat
  ev_request :: chat_request

definition handle :: "config \<Rightarrow> chat_event \<Rightarrow> gateway_state \<Rightarrow> reply \<times> js_value list \<times> gateway_state" where
  "handle cfg ev st =
     chat_completions cfg (ev_up ev) (ev_stream_up ev) (ev_now ev) (ev_latency ev) (ev_request ev) st"

fun run_events :: "config \<Rightarrow> chat_event list \<Rightarrow> gateway_state \<Rightarrow> gateway_state" where
  "run_events cfg [] st = st"
| "run_events cfg (ev # evs) st = run_events cfg evs (snd (snd (handle cfg ev st)))"

text \<open>
  A cache entry is live until \<open>due\<close> when it is in the map, a timer for its key is pending
  at \<open>due\<close>, and no timer for its key is pending earlier.
\<close>

definition entry_live :: "string \<Rightarrow> chat_completion \<Rightarrow> nat \<Rightarrow> gateway_state \<Rightarrow> bool" where
  "entry_live k c due st =
     (responseCache st k = Some c \<and> (due, k) \<in> set (timers st) \<and>
      (\<forall>x \<in> set (timers st). snd x = k \<longrightarrow> due \<le> fst x))"

text \<open>
  A request can reach its provider: the provider's key is set (and for Gemini, the
  messages pass the walk before the SDK call).
\<close>

definition dispatchable :: "config \<Rightarrow> chat_request \<Rightarrow> bool" where
  "dispatchable cfg req =
     (if provider_of (model_provider cfg) (resolve_chat_model (model_mapping cfg) (req_model req))
           = Str ''gemini''
      then geminiClient cfg \<and> gemini_local_error (req_messages req) = None
      else OPENROUTER_API_KEY cfg \<noteq> [])"

section \<open>Error classification\<close>



section \<open>Upstreams used as examples\<close>

definition http_error :: "nat \<Rightarrow> axios_error" where
  "http_error status =
     \<lparr>err_message = ''Request failed'', err_code = ''ERR_BAD_RESPONSE'',
      err_response = Some (status, ErrorMessage ''upstream says no'')\<rparr>"

definition always_down :: upstream where
  "always_down k v = Inl (http_error 500)"

definition sample_data :: response_data where
  "sample_data =
     [(''id'', JStr ''gen-1''),
      (''choices'', JArr [JObj [(''index'', JNum ''0''),
                               (''message'', JObj [(''role'', JStr ''assistant''),
                                                   (''content'', JStr ''hello'')]),
                               (''finish_reason'', JStr ''stop'')]]),
      (''usage'', JObj [(''total_tokens'', JNum ''7'')])]"

definition always_up :: upstream where
  "always_up k v = Inr sample_data"




definition self_fallback :: table where
  "self_fallback = [(''model-a'', ''model-a'')]"

definition user_hello :: json where
  "user_hello = JArr [JObj [(''role'', JStr ''user''), (''content'', JStr ''hello'')]]"

definition openrouter_unset :: config where
  "openrouter_unset = default_config\<lparr>OPENROUTER_API_KEY := []\<rparr>"

definition unauthorized :: upstream where
  "unauthorized k v = Inl (http_error 401)"

definition embed_hello :: embedding_request where
  "embed_hello = \<lparr>emb_model = ''text-embedding-ada-002'', emb_input = JStr ''hello'', emb_options = []\<rparr>"

definition stream_hello :: chat_request where
  "stream_hello = \<lparr>req_model = ''gpt-4'', req_messages = user_hello, req_stream = True, req_options = []\<rparr>"

definition broken_stream :: "js_value \<Rightarrow> stream_outcome" where
  "broken_stream model = Piped [''data: first chunk''] False"

definition chat_hello :: chat_request where
  "chat_hello =
     \<lparr>req_model = ''gpt-4'', req_messages = user_hello, req_stream = False,
      req_options = [(''temperature'', JNum ''0.7'')]\<rparr>"

definition chat_hello_alias :: chat_request where
  "chat_hello_alias = chat_hello\<lparr>req_model := ''gpt-3.5-turbo''\<rparr>"

definition other_event :: chat_event where
  "other_event =
     \<lparr>ev_up = always_up, ev_stream_up = broken_stream, ev_now = 12, ev_latency = 3,
      ev_request = chat_hello\<lparr>req_model := ''gpt-4o''\<rparr>\<rparr>"


definition two_options :: "(string \<times> json) list" where
  "two_options = [(''temperature'', JNum ''0.7''), (''max_tokens'', JNum ''100'')]"

definition two_options_swapped :: "(string \<times> json) list" where
  "two_options_swapped = [(''max_tokens'', JNum ''100''), (''temperature'', JNum ''0.7'')]"

definition three_options :: "(string \<times> json) list" where
  "three_options = [(''temperature'', JNum ''0.7''), (''top_p'', JNum ''1''), (''n'', JNum ''1'')]"

definition three_options_rotated :: "(string \<times> json) list" where
  "three_options_rotated = [(''top_p'', JNum ''1''), (''n'', JNum ''1''), (''temperature'', JNum ''0.7'')]"

section \<open>Properties of the retry functions\<close>

lemma attempts_from_last: "maxr - 1 \<le> retries \<Longrightarrow> attempts_from maxr retries = 1"
  by (simp add: attempts_from_def)

lemma attempts_from_step: "\<not> maxr - 1 \<le> retries \<Longrightarrow> attempts_from maxr retries = Suc (attempts_from maxr (retries + 1))"
  by (simp add: attempts_from_def nat_diff_distrib max_def)

lemma attempts_from_pos: "attempts_from maxr retries = Suc (attempts_from maxr retries - 1)"
  by (simp add: attempts_from_def)

lemma schedule_switch:
  assumes "maxr - 1 \<le> retries" "truthy (js_get fb (to_property_key m))" "js_get fb (to_property_key m) \<notin> set used"
  shows "schedule maxr fb m retries used = m # schedule maxr fb (js_get fb (to_property_key m)) 0 (used @ [m])"
  using assms
  by (simp add: schedule_def attempts_from_last fallback_chain.simps [of fb m used]
      fallback_chain.simps [of fb "js_get fb (to_property_key m)" "used @ [m]"] Let_def)

lemma schedule_stop:
  assumes "maxr - 1 \<le> retries" "\<not> (truthy (js_get fb (to_property_key m)) \<and> js_get fb (to_property_key m) \<notin> set used)"
  shows "schedule maxr fb m retries used = [m]"
  using assms
  by (auto simp add: schedule_def attempts_from_last fallback_chain.simps [of fb m used] Let_def)

lemma schedule_retry:
  assumes "\<not> maxr - 1 \<le> retries"
  shows "schedule maxr fb m retries used = m # schedule maxr fb m (retries + 1) used"
  using assms by (simp add: schedule_def attempts_from_step)

lemma schedule_head: "\<exists>rest. schedule maxr fb m retries used = m # rest"
  by (subst schedule_def, subst attempts_from_pos) simp

lemma calls_prefix_schedule:
  "prefix (snd (fetchOpenRouterWithRetry maxr fb up n m retries used)) (schedule maxr fb m retries used)"
proof (induction maxr fb up n m retries used rule: fetchOpenRouterWithRetry.induct)
  case (1 maxr fb up n m retries used)
  show ?case
  proof (cases "up n m")
    case (Inr d)
    then show ?thesis
      using schedule_head [of maxr fb m retries used]
      by (auto simp: fetchOpenRouterWithRetry.simps [of maxr fb up n m retries used])
  next
    case (Inl e)
    show ?thesis
    proof (cases "maxr - 1 \<le> retries")
      case last: True
      show ?thesis
      proof (cases "truthy (js_get fb (to_property_key m)) \<and> js_get fb (to_property_key m) \<notin> set used")
        case True
        with 1(1) [OF Inl last refl] show ?thesis
          using Inl last
          by (simp add: fetchOpenRouterWithRetry.simps [of maxr fb up n m retries used]
              schedule_switch split_beta Let_def)
      next
        case False
        then show ?thesis
          using Inl last
          by (auto simp add: fetchOpenRouterWithRetry.simps [of maxr fb up n m retries used]
              schedule_stop)
      qed
    next
      case False
      with 1(2) [OF Inl False] show ?thesis
        using Inl
        by (simp add: fetchOpenRouterWithRetry.simps [of maxr fb up n m retries used]
            schedule_retry split_beta)
    qed
  qed
qed







lemma fallback_chain_head:
  "fallback_chain fb m used = m # tl (fallback_chain fb m used)"
  by (simp add: fallback_chain.simps [of fb m used])

lemma schedule_top:
  "schedule maxr fb m 0 [] = concat (map (replicate (nat (max 1 maxr))) (fallback_chain fb m []))"
proof -
  have "concat (map (replicate (attempts_from maxr 0)) (fallback_chain fb m [])) =
        concat (map (replicate (attempts_from maxr 0)) (m # tl (fallback_chain fb m [])))"
    using fallback_chain_head [of fb m "[]"] by simp
  then show ?thesis
    by (simp add: schedule_def attempts_from_def)
qed

lemma calls_head: "\<exists>rest. snd (fetchOpenRouterWithRetry maxr fb up n m retries used) = m # rest"
  by (subst fetchOpenRouterWithRetry.simps) (simp add: split_beta Let_def split: sum.splits)

text \<open>
  When no fallback entry names its own key, the models visited in one request are
  pairwise different.
\<close>

lemma fallback_chain_distinct:
  "\<forall>v. truthy (js_get fb (to_property_key v)) \<longrightarrow> js_get fb (to_property_key v) \<noteq> v \<Longrightarrow>
   m \<notin> set used \<Longrightarrow>
   distinct (fallback_chain fb m used) \<and> set (fallback_chain fb m used) \<inter> set used = {}"
proof (induction fb m used rule: fallback_chain.induct)
  case (1 fb m used)
  let ?f = "js_get fb (to_property_key m)"
  show ?case
  proof (cases "truthy ?f \<and> ?f \<notin> set used")
    case True
    then have "?f \<noteq> m"
      using "1.prems"(1) by blast
    with True have fresh: "?f \<notin> set (used @ [m])"
      by simp
    from "1.IH" [OF refl True "1.prems"(1) fresh]
    have ih: "distinct (fallback_chain fb ?f (used @ [m]))"
      and disj: "set (fallback_chain fb ?f (used @ [m])) \<inter> set (used @ [m]) = {}"
      by simp_all
    have unfold: "fallback_chain fb m used = m # fallback_chain fb ?f (used @ [m])"
      using True by (simp add: fallback_chain.simps [of fb m used])
    from disj have "m \<notin> set (fallback_chain fb ?f (used @ [m]))"
      by auto
    moreover from disj have "set (fallback_chain fb ?f (used @ [m])) \<inter> set used = {}"
      by auto
    ultimately show ?thesis
      using ih "1.prems"(2) by (simp add: unfold)
  next
    case False
    then have "fallback_chain fb m used = [m]"
      by (auto simp add: fallback_chain.simps [of fb m used] Let_def)
    then show ?thesis
      using "1.prems"(2) by simp
  qed
qed

lemma count_list_replicate_eq: "count_list (replicate k x) v = (if x = v then k else 0)"
  by (induction k) auto

lemma count_list_app: "count_list (xs @ ys) v = count_list xs v + count_list ys v"
  by (induction xs) auto

lemma count_list_rounds:
  "distinct chain \<Longrightarrow>
   count_list (concat (map (replicate k) chain)) v = (if v \<in> set chain then k else 0)"
  by (induction chain) (auto simp: count_list_replicate_eq count_list_app)

lemma count_list_prefix: "prefix xs ys \<Longrightarrow> count_list xs v \<le> count_list ys v"
  by (auto simp: prefix_def count_list_app)

text \<open>
  With such a table no model is called more than \<open>max 1 MAX_RETRIES\<close> times in one
  request, whatever the upstream answers.
\<close>

lemma calls_per_model_bounded:
  assumes "\<forall>v. truthy (js_get fb (to_property_key v)) \<longrightarrow> js_get fb (to_property_key v) \<noteq> v"
  shows "count_list (snd (fetchOpenRouterWithRetry maxr fb up 0 m 0 [])) v \<le> nat (max 1 maxr)"
proof -
  have "distinct (fallback_chain fb m [])"
    using fallback_chain_distinct [OF assms, of m "[]"] by simp
  then have "count_list (concat (map (replicate (nat (max 1 maxr))) (fallback_chain fb m []))) v
               \<le> nat (max 1 maxr)"
    by (simp add: count_list_rounds)
  moreover have "prefix (snd (fetchOpenRouterWithRetry maxr fb up 0 m 0 []))
                   (concat (map (replicate (nat (max 1 maxr))) (fallback_chain fb m [])))"
    using calls_prefix_schedule [of maxr fb up 0 m 0 "[]"] by (simp only: schedule_top)
  ultimately show ?thesis
    by (meson count_list_prefix order_trans)
qed













section \<open>Properties of the routes and the cache\<close>

lemma chat_openrouter_unconfigured:
  assumes "OPENROUTER_API_KEY cfg = []"
    and "provider_of (model_provider cfg) (resolve_chat_model (model_mapping cfg) (req_model req))
           \<noteq> Str ''gemini''"
    and "req_stream req \<or>
         responseCache (run_timers now st) (generateCacheKey (resolve_chat_model (model_mapping cfg) (req_model req))
                             (req_messages req) (req_options req)) = None"
  shows "chat_completions cfg up stream_up now latency req st
           = (Failure 503 ''OpenRouter API is not configured. Please set OPENROUTER_API_KEY.''
                ''configuration_error'' ''openrouter_not_configured'', [], run_timers now st)"
  using assms by (auto simp add: chat_completions_def Let_def)

lemma chat_gemini_unconfigured:
  assumes "\<not> geminiClient cfg"
    and "provider_of (model_provider cfg) (resolve_chat_model (model_mapping cfg) (req_model req))
           = Str ''gemini''"
    and "req_stream req \<or>
         responseCache (run_timers now st) (generateCacheKey (resolve_chat_model (model_mapping cfg) (req_model req))
                             (req_messages req) (req_options req)) = None"
  shows "chat_completions cfg up stream_up now latency req st
           = (Failure 503 ''Gemini API is not configured. Please set GEMINI_API_KEY.''
                ''configuration_error'' ''gemini_not_configured'', [], run_timers now st)"
  using assms by (auto simp add: chat_completions_def Let_def)

lemma key_stream_hello: "resolve_chat_model MODEL_MAPPING ''gpt-4'' = Str ''deepseek/deepseek-r1-0528:free''"
  by (simp add: resolve_chat_model_def js_get_def js_or_def MODEL_MAPPING_def)

lemma provider_deepseek:
  "provider_of MODEL_PROVIDER (Str ''deepseek/deepseek-r1-0528:free'') = Str ''openrouter''"
  by (simp add: provider_of_def js_get_def js_or_def MODEL_PROVIDER_def object_prototype_keys_def)

lemma rejected_stream_signalled:
  "stream_relay (Rejected error) = EventStream [] [error_event, done_event] True"
  by (simp add: stream_relay_def)


lemma run_timers_live:
  "entry_live k c due st \<Longrightarrow> now < due \<Longrightarrow> entry_live k c due (run_timers now st)"
  by (auto simp: entry_live_def run_timers_def)

lemma run_timers_expired:
  "entry_live k c due st \<Longrightarrow> due \<le> now \<Longrightarrow> responseCache (run_timers now st) k = None"
  by (force simp: entry_live_def run_timers_def)

lemma cache_insert_other_live:
  "entry_live k c due st \<Longrightarrow> k' \<noteq> k \<Longrightarrow> entry_live k c due (cache_insert cfg now k' c' st)"
  by (auto simp: entry_live_def cache_insert_def)

lemma cache_insert_live:
  assumes "\<forall>x \<in> set (timers st). snd x \<noteq> k"
  shows "entry_live k c (now + timeout_delay (CACHE_TTL cfg)) (cache_insert cfg now k c st)"
  using assms by (auto simp: entry_live_def cache_insert_def)

lemma run_timers_no_timer:
  "\<forall>x \<in> set (timers st). snd x \<noteq> k \<Longrightarrow> \<forall>x \<in> set (timers (run_timers now st)). snd x \<noteq> k"
  by (auto simp: run_timers_def)

text \<open>The state a request leaves behind.\<close>

lemma chat_completions_state:
  "snd (snd (chat_completions cfg up stream_up now latency req st)) = run_timers now st \<or>
   snd (snd (chat_completions cfg up stream_up now latency req st))
     = run_timers (now + latency) (run_timers now st) \<or>
   (\<exists>c'. responseCache (run_timers now st) (cache_key_of cfg req) = None \<and>
      snd (snd (chat_completions cfg up stream_up now latency req st))
        = cache_insert cfg (now + latency) (cache_key_of cfg req) c'
            (run_timers (now + latency) (run_timers now st)))"
  by (auto simp: chat_completions_def cache_key_of_def respond_and_cache_def Let_def
      split: option.splits sum.splits prod.splits if_splits)

lemma chat_completions_live:
  assumes "entry_live k c due st" and "now + latency < due"
  shows "entry_live k c due (snd (snd (chat_completions cfg up stream_up now latency req st)))"
proof -
  have a: "entry_live k c due (run_timers now st)"
    using assms by (intro run_timers_live) auto
  then have b: "entry_live k c due (run_timers (now + latency) (run_timers now st))"
    using assms by (intro run_timers_live) auto
  from chat_completions_state [of cfg up stream_up now latency req st] show ?thesis
  proof (elim disjE exE conjE)
    fix c'
    assume miss: "responseCache (run_timers now st) (cache_key_of cfg req) = None"
      and st: "snd (snd (chat_completions cfg up stream_up now latency req st))
                 = cache_insert cfg (now + latency) (cache_key_of cfg req) c'
                     (run_timers (now + latency) (run_timers now st))"
    from miss a have "cache_key_of cfg req \<noteq> k"
      by (auto simp: entry_live_def)
    with b st show ?thesis
      by (simp add: cache_insert_other_live)
  qed (use a b in simp_all)
qed

lemma run_events_live:
  "entry_live k c due st \<Longrightarrow> \<forall>ev \<in> set evs. ev_now ev + ev_latency ev < due \<Longrightarrow>
   entry_live k c due (run_events cfg evs st)"
proof (induction evs arbitrary: st)
  case Nil
  then show ?case by simp
next
  case (Cons ev evs)
  from Cons.prems have "entry_live k c due (snd (snd (handle cfg ev st)))"
    by (simp add: handle_def chat_completions_live)
  with Cons show ?case
    by simp
qed

lemma chat_completions_hit:
  assumes "responseCache (run_timers now st) (cache_key_of cfg req) = Some c" and "\<not> req_stream req"
  shows "chat_completions cfg up stream_up now latency req st = (Completion c, [], run_timers now st)"
  using assms by (simp add: chat_completions_def cache_key_of_def Let_def)


lemma gemini_local_error_no_calls:
  "gemini_local_error messages = Some e \<Longrightarrow>
   snd (fetchGeminiWithRetry client maxr up n model messages retries) = []"
proof (induction client maxr up n model messages retries rule: fetchGeminiWithRetry.induct)
  case (1 client maxr up n model messages retries)
  have att: "gemini_attempt up n model messages = (Inl e, [])"
    using "1.prems" by (simp add: gemini_attempt_def)
  show ?case
  proof (cases "client \<and> \<not> maxr - 1 \<le> retries")
    case True
    then have "\<not> \<not> client" and more: "\<not> maxr - 1 \<le> retries"
      by simp_all
    from "1.IH" [OF this(1) att [symmetric] refl more "1.prems"] True att show ?thesis
      by (subst fetchGeminiWithRetry.simps) (simp add: split_beta)
  next
    case False
    with att show ?thesis
      by (subst fetchGeminiWithRetry.simps) auto
  qed
qed

lemma gemini_calls_head:
  "gemini_local_error messages = None \<Longrightarrow>
   \<exists>rest. snd (fetchGeminiWithRetry True maxr up n model messages retries) = model # rest"
  by (subst fetchGeminiWithRetry.simps)
     (simp add: gemini_attempt_def split_beta split: sum.splits)

lemma chat_completions_from_provider:
  assumes "chat_completions cfg up stream_up now latency req st = (Completion c, calls, st1)"
    and "calls \<noteq> []"
  shows "st1 = cache_insert cfg (now + latency) (cache_key_of cfg req) c
                 (run_timers (now + latency) (run_timers now st)) \<and>
         cc_model c = req_model req \<and> dispatchable cfg req"
proof -
  have local: "gemini_local_error (req_messages req) = None"
    if "fetchGeminiWithRetry client maxr up 0 model (req_messages req) 0 = (r, calls)" for client maxr model r
  proof (cases "gemini_local_error (req_messages req)")
    case (Some e)
    from gemini_local_error_no_calls [OF Some, of client maxr up 0 model 0] that assms(2)
    show ?thesis by simp
  qed simp
  from assms show ?thesis
    by (auto simp: chat_completions_def cache_key_of_def respond_and_cache_def Let_def
        dispatchable_def completion_of_def stream_relay_def handleError_def chat_error_reply_def
        split: option.splits sum.splits prod.splits if_splits stream_outcome.splits
          error_body.splits
        dest: local)
qed

lemma chat_completions_miss_calls:
  assumes "responseCache (run_timers now st) (cache_key_of cfg req) = None"
    and "\<not> req_stream req" and "dispatchable cfg req"
  shows "fst (snd (chat_completions cfg up stream_up now latency req st)) \<noteq> []"
proof (cases "provider_of (model_provider cfg) (resolve_chat_model (model_mapping cfg) (req_model req))
                = Str ''gemini''")
  case True
  with assms(3) have client: "geminiClient cfg" and ok: "gemini_local_error (req_messages req) = None"
    by (simp_all add: dispatchable_def)
  obtain rest where "snd (fetchGeminiWithRetry True (MAX_RETRIES cfg) up 0
      (resolve_chat_model (model_mapping cfg) (req_model req)) (req_messages req) 0)
      = resolve_chat_model (model_mapping cfg) (req_model req) # rest"
    using gemini_calls_head [OF ok] by blast
  with assms(1,2) True client show ?thesis
    by (auto simp: chat_completions_def cache_key_of_def respond_and_cache_def Let_def
        split: sum.splits prod.splits)
next
  case False
  with assms(3) have key: "OPENROUTER_API_KEY cfg \<noteq> []"
    by (simp add: dispatchable_def)
  obtain rest where "snd (fetchOpenRouterWithRetry (MAX_RETRIES cfg) (fallback_mapping cfg) up 0
      (resolve_chat_model (model_mapping cfg) (req_model req)) 0 [])
      = resolve_chat_model (model_mapping cfg) (req_model req) # rest"
    using calls_head by blast
  with assms(1,2) False key show ?thesis
    by (auto simp: chat_completions_def cache_key_of_def respond_and_cache_def Let_def
        split: sum.splits prod.splits)
qed

lemma entry_live_after_first:
  assumes "chat_completions cfg up stream_up now latency req st = (Completion c, calls, st1)"
    and "calls \<noteq> []"
    and "\<forall>x \<in> set (timers st). snd x \<noteq> cache_key_of cfg req"
  shows "entry_live (cache_key_of cfg req) c (now + latency + timeout_delay (CACHE_TTL cfg)) st1"
proof -
  have "\<forall>x \<in> set (timers (run_timers (now + latency) (run_timers now st))).
          snd x \<noteq> cache_key_of cfg req"
    using assms(3) by (intro run_timers_no_timer)
  then show ?thesis
    using chat_completions_from_provider [OF assms(1,2)] by (simp add: cache_insert_live)
qed

lemma same_request_key:
  assumes "resolve_chat_model (model_mapping cfg) (req_model req2)
             = resolve_chat_model (model_mapping cfg) (req_model req1)"
    and "req_messages req2 = req_messages req1" and "req_options req2 = req_options req1"
  shows "cache_key_of cfg req2 = cache_key_of cfg req1"
    and "dispatchable cfg req2 = dispatchable cfg req1"
  using assms by (simp_all add: cache_key_of_def dispatchable_def)

lemma first_hello:
  "chat_completions default_config always_up stream_up 0 10 chat_hello initial_state
     = (Completion (completion_of ''gpt-4'' 10 sample_data),
        [Str ''deepseek/deepseek-r1-0528:free''],
        cache_insert default_config 10 (cache_key_of default_config chat_hello)
          (completion_of ''gpt-4'' 10 sample_data) initial_state)"
  by (simp add: chat_completions_def Let_def default_config_def chat_hello_def key_stream_hello
      provider_deepseek run_timers_def initial_state_def fetchOpenRouterWithRetry.simps
      always_up_def respond_and_cache_def cache_key_of_def)

lemma default_delay: "timeout_delay (CACHE_TTL default_config) = 3600000"
  by (simp add: timeout_delay_def default_config_def)

lemma second_request_hit:
  assumes first: "chat_completions cfg up1 stream_up1 t1 l1 req1 st0 = (Completion c1, calls1, st1)"
    and provider: "calls1 \<noteq> []"
    and fresh: "\<forall>x \<in> set (timers st0). snd x \<noteq> cache_key_of cfg req1"
    and between: "\<forall>ev \<in> set evs. ev_now ev + ev_latency ev < t1 + l1 + timeout_delay (CACHE_TTL cfg)"
    and same: "resolve_chat_model (model_mapping cfg) (req_model req2)
                 = resolve_chat_model (model_mapping cfg) (req_model req1)"
      "req_messages req2 = req_messages req1" "req_options req2 = req_options req1"
    and plain: "\<not> req_stream req2"
    and within: "t2 < t1 + l1 + timeout_delay (CACHE_TTL cfg)"
  shows "chat_completions cfg up2 stream_up2 t2 l2 req2 (run_events cfg evs st1)
           = (Completion c1, [], run_timers t2 (run_events cfg evs st1))"
proof -
  let ?due = "t1 + l1 + timeout_delay (CACHE_TTL cfg)"
  let ?st = "run_events cfg evs st1"
  have key: "cache_key_of cfg req2 = cache_key_of cfg req1"
    using same by (rule same_request_key)
  have "entry_live (cache_key_of cfg req1) c1 ?due st1"
    using first provider fresh by (rule entry_live_after_first)
  then have "entry_live (cache_key_of cfg req1) c1 ?due ?st"
    using between by (rule run_events_live)
  then have "entry_live (cache_key_of cfg req1) c1 ?due (run_timers t2 ?st)"
    using within by (rule run_timers_live)
  then have "responseCache (run_timers t2 ?st) (cache_key_of cfg req2) = Some c1"
    by (simp add: entry_live_def key)
  then show ?thesis
    using plain by (rule chat_completions_hit)
qed

lemma second_request_miss:
  assumes first: "chat_completions cfg up1 stream_up1 t1 l1 req1 st0 = (Completion c1, calls1, st1)"
    and provider: "calls1 \<noteq> []"
    and fresh: "\<forall>x \<in> set (timers st0). snd x \<noteq> cache_key_of cfg req1"
    and between: "\<forall>ev \<in> set evs. ev_now ev + ev_latency ev < t1 + l1 + timeout_delay (CACHE_TTL cfg)"
    and same: "resolve_chat_model (model_mapping cfg) (req_model req2)
                 = resolve_chat_model (model_mapping cfg) (req_model req1)"
      "req_messages req2 = req_messages req1" "req_options req2 = req_options req1"
    and plain: "\<not> req_stream req2"
    and expired: "t1 + l1 + timeout_delay (CACHE_TTL cfg) \<le> t2"
  shows "fst (snd (chat_completions cfg up2 stream_up2 t2 l2 req2 (run_events cfg evs st1))) \<noteq> []"
proof -
  let ?due = "t1 + l1 + timeout_delay (CACHE_TTL cfg)"
  let ?st = "run_events cfg evs st1"
  have key: "cache_key_of cfg req2 = cache_key_of cfg req1"
    using same by (rule same_request_key)
  have "entry_live (cache_key_of cfg req1) c1 ?due st1"
    using first provider fresh by (rule entry_live_after_first)
  then have "entry_live (cache_key_of cfg req1) c1 ?due ?st"
    using between by (rule run_events_live)
  then have "responseCache (run_timers t2 ?st) (cache_key_of cfg req2) = None"
    using expired by (simp add: run_timers_expired key)
  moreover have "dispatchable cfg req2"
    using chat_completions_from_provider [OF first provider] same_request_key(2) [OF same]
    by simp
  ultimately show ?thesis
    using plain by (intro chat_completions_miss_calls)
qed

lemma hello_alias_same:
  "resolve_chat_model (model_mapping default_config) (req_model chat_hello_alias)
     = resolve_chat_model (model_mapping default_config) (req_model chat_hello)"
  "req_messages chat_hello_alias = req_messages chat_hello"
  "req_options chat_hello_alias = req_options chat_hello"
  "\<not> req_stream chat_hello_alias"
  by (simp_all add: chat_hello_alias_def chat_hello_def default_config_def resolve_chat_model_def
      js_get_def js_or_def MODEL_MAPPING_def)

lemma other_event_on_time:
  "\<forall>ev \<in> set [other_event]. ev_now ev + ev_latency ev < 0 + 10 + timeout_delay (CACHE_TTL default_config)"
  by (simp add: other_event_def default_delay)







section \<open>Properties of the JSON text\<close>

text \<open>
  The escapes form a prefix code that never starts with a bare quote, so a quoted string
  at the head of a text determines the string.
\<close>

lemma hex_digit_inj:
  assumes "m < 16" and "n < 16" and "hex_digit m = hex_digit n"
  shows "m = n"
proof -
  have "distinct ''0123456789abcdef''"
    by simp
  moreover have "m < length ''0123456789abcdef''" and "n < length ''0123456789abcdef''"
    using assms by simp_all
  ultimately show ?thesis
    using assms(3) unfolding hex_digit_def
    by (simp add: nth_eq_iff_index_eq assms)
qed

lemma escape_char_head: "\<exists>a rest. escape_char c = a # rest \<and> a \<noteq> dq"
  by (simp add: escape_char_def dq_def bsl_def)

lemma low_char_eq:
  assumes "(of_char c :: nat) < 32" and "(of_char d :: nat) < 32"
    and "hex_digit (of_char c div 16) = hex_digit (of_char d div 16)"
    and "hex_digit (of_char c mod 16) = hex_digit (of_char d mod 16)"
  shows "c = d"
proof -
  have "(of_char c :: nat) div 16 = of_char d div 16"
    using assms(1,2,3) by (intro hex_digit_inj) auto
  moreover have "(of_char c :: nat) mod 16 = of_char d mod 16"
    using assms(4) by (intro hex_digit_inj) auto
  ultimately have "(of_char c :: nat) = of_char d"
    by (metis div_mult_mod_eq)
  then show ?thesis
    by simp
qed

lemma escape_char_prefix_code:
  assumes "escape_char c @ x = escape_char d @ y"
  shows "c = d"
  using assms
  by (auto simp: escape_char_def dq_def bsl_def split: if_splits intro: low_char_eq)


lemma escaped_prefix_free:
  "concat (map escape_char s) @ dq # x = concat (map escape_char t) @ dq # y \<Longrightarrow> s = t"
proof (induction s arbitrary: t)
  case Nil
  show ?case
  proof (cases t)
    case (Cons d t')
    obtain a rest where "escape_char d = a # rest" and "a \<noteq> dq"
      using escape_char_head by blast
    with Nil Cons show ?thesis
      by simp
  qed simp
next
  case (Cons c s)
  show ?case
  proof (cases t)
    case Nil
    obtain a rest where "escape_char c = a # rest" and "a \<noteq> dq"
      using escape_char_head by blast
    with Cons.prems Nil show ?thesis
      by simp
  next
    case (Cons d t')
    with Cons.prems have eq: "escape_char c @ (concat (map escape_char s) @ dq # x)
        = escape_char d @ (concat (map escape_char t') @ dq # y)"
      by simp
    then have "c = d"
      by (rule escape_char_prefix_code)
    with eq have "concat (map escape_char s) @ dq # x = concat (map escape_char t') @ dq # y"
      by simp
    then have "s = t'"
      by (rule Cons.IH)
    with \<open>c = d\<close> Cons show ?thesis
      by simp
  qed
qed

lemma quote_prefix_free: "quote s @ x = quote t @ y \<Longrightarrow> s = t"
  using escaped_prefix_free [of s x t y] by (simp add: quote_def)

lemma join_commas_split:
  "join_commas (xs @ y # zs)
     = concat (map (\<lambda>x. x @ '','') xs) @ y @ concat (map (\<lambda>z. '','' @ z) zs)"
proof (induction xs)
  case Nil
  show ?case
    by (induction zs arbitrary: y) simp_all
next
  case (Cons x xs)
  then show ?case
    by (cases xs) simp_all
qed

lemma stringify_fields_append:
  "stringify_fields (p @ (k, v) # r)
     = stringify_fields p @ (quote k @ '':'' @ stringify v) # stringify_fields r"
  by (induction p) auto

lemma fields_differ_at_key:
  assumes "k1 \<noteq> k2"
  shows "join_commas (stringify_fields (p @ (k1, v1) # r1)) @ x
           \<noteq> join_commas (stringify_fields (p @ (k2, v2) # r2)) @ y"
proof
  assume "join_commas (stringify_fields (p @ (k1, v1) # r1)) @ x
            = join_commas (stringify_fields (p @ (k2, v2) # r2)) @ y"
  then have "quote k1 @ ('':'' @ stringify v1 @ concat (map (\<lambda>z. '','' @ z) (stringify_fields r1)) @ x)
      = quote k2 @ ('':'' @ stringify v2 @ concat (map (\<lambda>z. '','' @ z) (stringify_fields r2)) @ y)"
    by (simp add: stringify_fields_append join_commas_split)
  then have "k1 = k2"
    by (rule quote_prefix_free)
  with assms show False
    by simp
qed

lemma first_difference:
  "length xs = length ys \<Longrightarrow> xs \<noteq> ys \<Longrightarrow>
   \<exists>p a b r1 r2. xs = p @ a # r1 \<and> ys = p @ b # r2 \<and> a \<noteq> b"
proof (induction xs ys rule: list_induct2)
  case Nil
  then show ?case by simp
next
  case (Cons x xs y ys)
  show ?case
  proof (cases "x = y")
    case True
    with Cons.prems have "xs \<noteq> ys"
      by simp
    from Cons.IH [OF this] obtain p a b r1 r2
      where "xs = p @ a # r1" "ys = p @ b # r2" "a \<noteq> b"
      by blast
    with True have "x # xs = (x # p) @ a # r1 \<and> y # ys = (x # p) @ b # r2 \<and> a \<noteq> b"
      by simp
    then show ?thesis
      by blast
  next
    case False
    then have "x # xs = [] @ x # xs \<and> y # ys = [] @ y # ys \<and> x \<noteq> y"
      by simp
    then show ?thesis
      by blast
  qed
qed

lemma cache_key_shape:
  "\<exists>a b. \<forall>options. generateCacheKey model messages options
       = a @ join_commas (stringify_fields options) @ b"
proof -
  let ?xs = "model_field model @ [quote ''messages'' @ '':'' @ stringify messages]"
  have "generateCacheKey model messages options
      = (''{'' @ concat (map (\<lambda>x. x @ '','') ?xs) @ quote ''options'' @ '':'' @ ''{'')
        @ join_commas (stringify_fields options) @ ''}}''" for options
    using join_commas_split [of ?xs "quote ''options'' @ '':'' @ stringify (JObj options)" "[]"]
    by (simp add: generateCacheKey_def)
  then show ?thesis
    by blast
qed

lemma cache_key_order:
  assumes names: "distinct (map fst options1)" "distinct (map fst options2)"
    and content: "set options1 = set options2"
    and order: "options1 \<noteq> options2"
  shows "generateCacheKey model messages options1 \<noteq> generateCacheKey model messages options2"
proof -
  have d1: "distinct options1" and d2: "distinct options2"
    using names by (simp_all add: distinct_map)
  then have "length options1 = length options2"
    using content by (metis distinct_card)
  with order obtain p a b r1 r2
    where o1: "options1 = p @ a # r1" and o2: "options2 = p @ b # r2" and ab: "a \<noteq> b"
    using first_difference by blast
  have "b \<in> set options1"
    using content o2 by simp
  moreover have "a \<in> set options1"
    using o1 by simp
  ultimately have "fst a \<noteq> fst b"
    using names(1) ab by (auto simp: distinct_map dest: inj_onD)
  obtain x y where key: "\<And>options. generateCacheKey model messages options
       = x @ join_commas (stringify_fields options) @ y"
    using cache_key_shape by blast
  have "join_commas (stringify_fields (p @ (fst a, snd a) # r1)) @ y
          \<noteq> join_commas (stringify_fields (p @ (fst b, snd b) # r2)) @ y"
    using \<open>fst a \<noteq> fst b\<close> by (rule fields_differ_at_key)
  then show ?thesis
    by (simp add: key o1 o2)
qed


section \<open>Model resolution: the claims\<close>

text \<open>
  Claim C7 says that every client model name without an entry in the mapping resolves to
  the \<^verbatim>\<open>default\<close> entry's target, on the chat route and on the embeddings route alike.
  On the embeddings route the source falls back to the \<^verbatim>\<open>text-embedding-ada-002\<close> entry
  instead: with the mapping the gateway starts with, an unknown name resolves to the
  embedding model and not to the default's target.
\<close>

theorem embeddings_default_counterexample:
  "map_of MODEL_MAPPING ''no-such-model'' = None \<and>
   js_get MODEL_MAPPING ''default'' = Str ''deepseek/deepseek-r1-0528:free'' \<and>
   resolve_embedding_model MODEL_MAPPING ''no-such-model'' = Str ''mistralai/mistral-embed:free''"
  by (simp add: MODEL_MAPPING_def resolve_embedding_model_def js_get_def js_or_def
      object_prototype_keys_def)

text \<open>
  A name that is a member of \<^verbatim>\<open>Object.prototype\<close> has no entry either, and resolves to
  the inherited member on both routes.
\<close>

lemma inherited_name_not_default:
  "map_of MODEL_MAPPING ''constructor'' = None \<and>
   resolve_chat_model MODEL_MAPPING ''constructor'' = Inherited ''constructor''"
  by (simp add: MODEL_MAPPING_def resolve_chat_model_def js_get_def js_or_def
      object_prototype_keys_def)

text \<open>
  Claim C7, amended: for every client model name that has no entry in the mapping and is
  not the name of a member of \<^verbatim>\<open>Object.prototype\<close> (the empty name included), resolution
  does not fail; on the chat route it gives the target of the \<^verbatim>\<open>default\<close> entry, and on
  the embeddings route the target of the \<^verbatim>\<open>text-embedding-ada-002\<close> entry.
\<close>

theorem resolver_unknown_model:
  assumes "map_of mapping name = None"
    and "name \<notin> set object_prototype_keys"
    and "map_of mapping ''default'' = Some d"
    and "map_of mapping ''text-embedding-ada-002'' = Some e"
  shows "resolve_chat_model mapping name = Str d \<and>
         resolve_embedding_model mapping name = Str e"
proof -
  from assms(1,2) have "js_get mapping name = Undefined"
    by (simp add: js_get_def)
  moreover from assms(3) have "js_get mapping ''default'' = Str d"
    by (simp add: js_get_def)
  moreover from assms(4) have "js_get mapping ''text-embedding-ada-002'' = Str e"
    by (simp add: js_get_def)
  ultimately show ?thesis
    by (simp add: resolve_chat_model_def resolve_embedding_model_def js_or_def)
qed

theorem resolver_unknown_model_witness:
  "resolve_chat_model MODEL_MAPPING [] = Str ''deepseek/deepseek-r1-0528:free'' \<and>
   resolve_embedding_model MODEL_MAPPING [] = Str ''mistralai/mistral-embed:free''"
proof -
  have h1: "map_of MODEL_MAPPING [] = None"
    by (simp add: MODEL_MAPPING_def)
  have h2: "[] \<notin> set object_prototype_keys"
    by (simp add: object_prototype_keys_def)
  have h3: "map_of MODEL_MAPPING ''default'' = Some ''deepseek/deepseek-r1-0528:free''"
    by (simp add: MODEL_MAPPING_def)
  have h4: "map_of MODEL_MAPPING ''text-embedding-ada-002'' = Some ''mistralai/mistral-embed:free''"
    by (simp add: MODEL_MAPPING_def)
  show ?thesis
    by (rule resolver_unknown_model [OF h1 h2 h3 h4])
qed

section \<open>Retry budget and fallback: the claims\<close>




text \<open>
  Claim C1 says that no target model is attempted twice within one request, whatever the
  fallback table holds. The executor tests the fallback against the models used so far
  before it adds the current one, so an entry that names its own key is followed once:
  with all calls failing and \<^verbatim>\<open>MAX_RETRIES = 3\<close>, the model is called six times.
\<close>

theorem self_fallback_attempted_twice:
  "fallback_chain self_fallback (Str ''model-a'') [] = [Str ''model-a'', Str ''model-a''] \<and>
   snd (fetchOpenRouterWithRetry 3 self_fallback always_down 0 (Str ''model-a'') 0 [])
     = [Str ''model-a'', Str ''model-a'', Str ''model-a'',
        Str ''model-a'', Str ''model-a'', Str ''model-a'']"
  by (simp add: fallback_chain.simps fetchOpenRouterWithRetry.simps self_fallback_def
      always_down_def js_get_def Let_def)




section \<open>Unconfigured providers and streaming: the claims\<close>

text \<open>
  Claim C2 says that a request dispatched to a provider without a key fails at once with a
  configuration error (503), before any upstream call, on the chat route and on the
  embeddings route. The chat route tests the key (lemmas \<open>chat_openrouter_unconfigured\<close>
  and \<open>chat_gemini_unconfigured\<close>); the embeddings route does not. With
  \<^verbatim>\<open>OPENROUTER_API_KEY\<close> unset and an upstream that answers 401, an embeddings request
  makes three upstream calls and ends as an \<^verbatim>\<open>api_error\<close> with the upstream's status.
\<close>

theorem embeddings_unconfigured_calls_upstream:
  "OPENROUTER_API_KEY openrouter_unset = [] \<and>
   embeddings openrouter_unset unauthorized embed_hello
     = (Failure 401 ''upstream says no'' ''api_error'' ''internal_error'',
        [Str ''mistralai/mistral-embed:free'', Str ''mistralai/mistral-embed:free'',
         Str ''mistralai/mistral-embed:free''])"
  by (simp add: openrouter_unset_def default_config_def embeddings_def embed_hello_def
      resolve_embedding_model_def js_get_def js_or_def MODEL_MAPPING_def FALLBACK_MAPPING_def
      fetchOpenRouterWithRetry.simps unauthorized_def http_error_def handleError_def
      embeddings_error_reply_def object_prototype_keys_def Let_def)

text \<open>
  Claim C4 says that when the upstream stream fails after forwarding has begun, the client
  gets one error event, then one \<^verbatim>\<open>data: [DONE]\<close>, and the connection is closed. The
  stream branch writes these two events only when the streaming call itself is rejected
  (lemma \<open>rejected_stream_signalled\<close>). For a stream that delivers a chunk and then fails,
  the client has the chunk and nothing else, and the response is not ended.
\<close>

theorem mid_stream_failure_unsignalled:
  "chat_completions default_config always_up broken_stream 0 0 stream_hello initial_state
     = (EventStream sse_headers [''data: first chunk''] False,
        [Str ''deepseek/deepseek-r1-0528:free''], initial_state)"
  by (simp add: chat_completions_def Let_def default_config_def stream_hello_def key_stream_hello
      provider_deepseek stream_relay_def broken_stream_def run_timers_def initial_state_def)


section \<open>The response cache: the claims\<close>

text \<open>
  Claim C5 says that of every two non-streaming chat requests with the same resolved
  model, messages and options, the second is served from the cache, with no provider call,
  when it arrives within \<^verbatim>\<open>CACHE_TTL\<close> of the first one's successful response, and
  invokes the provider again after that. \<^verbatim>\<open>POST /config/clear-cache\<close> empties the cache:
  a second request 10 ms after the first response, with a clear in between, calls the
  provider again.
\<close>

theorem cleared_cache_counterexample:
  "fst (chat_completions default_config always_up broken_stream 0 10 chat_hello initial_state)
     = Completion (completion_of ''gpt-4'' 10 sample_data) \<and>
   (20::nat) < 10 + timeout_delay (CACHE_TTL default_config) \<and>
   fst (snd (chat_completions default_config always_up broken_stream 20 10 chat_hello
               (clear_cache
                  (snd (snd (chat_completions default_config always_up broken_stream 0 10
                               chat_hello initial_state))))))
     = [Str ''deepseek/deepseek-r1-0528:free'']"
  by (simp add: first_hello default_delay)
     (simp add: chat_completions_def Let_def default_config_def chat_hello_def key_stream_hello
      provider_deepseek run_timers_def clear_cache_def cache_insert_def initial_state_def
      fetchOpenRouterWithRetry.simps always_up_def respond_and_cache_def)

text \<open>
  Claim C5, amended: let a non-streaming chat request be answered by its provider at time
  \<open>t1 + l1\<close>, with no expiry timer of an earlier insertion of its key still pending, and let
  \<open>d\<close> be \<^verbatim>\<open>CACHE_TTL\<close> as \<^verbatim>\<open>setTimeout\<close> takes it (1 ms when \<^verbatim>\<open>CACHE_TTL\<close> is below 1 or
  above 2147483647). Let any chat requests follow, one after the other, each finished
  before \<open>t1 + l1 + d\<close>, with no cache clear. Then a non-streaming request with the same
  resolved model, messages and options that is looked at before \<open>t1 + l1 + d\<close> gets the
  very same response and makes no upstream call; one that is looked at at \<open>t1 + l1 + d\<close>
  or later makes an upstream call again.
\<close>

theorem cache_round_trip:
  assumes first: "chat_completions cfg up1 stream_up1 t1 l1 req1 st0 = (Completion c1, calls1, st1)"
    and provider: "calls1 \<noteq> []"
    and fresh: "\<forall>x \<in> set (timers st0). snd x \<noteq> cache_key_of cfg req1"
    and between: "\<forall>ev \<in> set evs. ev_now ev + ev_latency ev < t1 + l1 + timeout_delay (CACHE_TTL cfg)"
    and same: "resolve_chat_model (model_mapping cfg) (req_model req2)
                 = resolve_chat_model (model_mapping cfg) (req_model req1)"
      "req_messages req2 = req_messages req1" "req_options req2 = req_options req1"
    and plain: "\<not> req_stream req2"
  shows "(t2 < t1 + l1 + timeout_delay (CACHE_TTL cfg) \<longrightarrow>
            chat_completions cfg up2 stream_up2 t2 l2 req2 (run_events cfg evs st1)
              = (Completion c1, [], run_timers t2 (run_events cfg evs st1))) \<and>
         (t1 + l1 + timeout_delay (CACHE_TTL cfg) \<le> t2 \<longrightarrow>
            fst (snd (chat_completions cfg up2 stream_up2 t2 l2 req2 (run_events cfg evs st1))) \<noteq> [])"
proof (intro conjI impI)
  assume "t2 < t1 + l1 + timeout_delay (CACHE_TTL cfg)"
  with assms show "chat_completions cfg up2 stream_up2 t2 l2 req2 (run_events cfg evs st1)
              = (Completion c1, [], run_timers t2 (run_events cfg evs st1))"
    by (rule second_request_hit)
next
  assume "t1 + l1 + timeout_delay (CACHE_TTL cfg) \<le> t2"
  with assms show "fst (snd (chat_completions cfg up2 stream_up2 t2 l2 req2 (run_events cfg evs st1))) \<noteq> []"
    by (rule second_request_miss)
qed

theorem cache_round_trip_witness:
  "chat_completions default_config always_up broken_stream 20 10 chat_hello_alias
     (run_events default_config [other_event]
        (cache_insert default_config 10 (cache_key_of default_config chat_hello)
           (completion_of ''gpt-4'' 10 sample_data) initial_state))
     = (Completion (completion_of ''gpt-4'' 10 sample_data), [],
        run_timers 20
          (run_events default_config [other_event]
             (cache_insert default_config 10 (cache_key_of default_config chat_hello)
                (completion_of ''gpt-4'' 10 sample_data) initial_state))) \<and>
   fst (snd (chat_completions default_config always_up broken_stream 3600010 10 chat_hello_alias
     (run_events default_config [other_event]
        (cache_insert default_config 10 (cache_key_of default_config chat_hello)
           (completion_of ''gpt-4'' 10 sample_data) initial_state)))) \<noteq> []"
proof -
  have provider: "[Str ''deepseek/deepseek-r1-0528:free''] \<noteq> []"
    by simp
  have fresh: "\<forall>x \<in> set (timers initial_state). snd x \<noteq> cache_key_of default_config chat_hello"
    by (simp add: initial_state_def)
  have early: "(20::nat) < 0 + 10 + timeout_delay (CACHE_TTL default_config)"
    by (simp add: default_delay)
  have late: "0 + 10 + timeout_delay (CACHE_TTL default_config) \<le> (3600010::nat)"
    by (simp add: default_delay)
  from cache_round_trip [OF first_hello provider fresh other_event_on_time hello_alias_same,
      of 20 always_up broken_stream 10] early
  have "chat_completions default_config always_up broken_stream 20 10 chat_hello_alias
     (run_events default_config [other_event]
        (cache_insert default_config 10 (cache_key_of default_config chat_hello)
           (completion_of ''gpt-4'' 10 sample_data) initial_state))
     = (Completion (completion_of ''gpt-4'' 10 sample_data), [],
        run_timers 20
          (run_events default_config [other_event]
             (cache_insert default_config 10 (cache_key_of default_config chat_hello)
                (completion_of ''gpt-4'' 10 sample_data) initial_state)))"
    by blast
  moreover
  from cache_round_trip [OF first_hello provider fresh other_event_on_time hello_alias_same,
      of 3600010 always_up broken_stream 10] late
  have "fst (snd (chat_completions default_config always_up broken_stream 3600010 10 chat_hello_alias
     (run_events default_config [other_event]
        (cache_insert default_config 10 (cache_key_of default_config chat_hello)
           (completion_of ''gpt-4'' 10 sample_data) initial_state)))) \<noteq> []"
    by blast
  ultimately show ?thesis
    by simp
qed

text \<open>
  Claim C10: the cached response carries the model name of the request that filled the
  cache. When a request for client model name A has been answered by the provider and
  cached, a later non-streaming request for a name B that resolves to the same target, with
  the same messages and options, gets that cached response while the entry is live, and
  its \<^verbatim>\<open>model\<close> field is A, whatever B is.
\<close>

theorem cached_alias_served:
  assumes first: "chat_completions cfg up1 stream_up1 t1 l1 req1 st0 = (Completion c1, calls1, st1)"
    and provider: "calls1 \<noteq> []"
    and fresh: "\<forall>x \<in> set (timers st0). snd x \<noteq> cache_key_of cfg req1"
    and between: "\<forall>ev \<in> set evs. ev_now ev + ev_latency ev < t1 + l1 + timeout_delay (CACHE_TTL cfg)"
    and same: "resolve_chat_model (model_mapping cfg) (req_model req2)
                 = resolve_chat_model (model_mapping cfg) (req_model req1)"
      "req_messages req2 = req_messages req1" "req_options req2 = req_options req1"
    and plain: "\<not> req_stream req2"
    and within: "t2 < t1 + l1 + timeout_delay (CACHE_TTL cfg)"
  shows "fst (chat_completions cfg up2 stream_up2 t2 l2 req2 (run_events cfg evs st1)) = Completion c1 \<and>
         cc_model c1 = req_model req1"
proof
  have "chat_completions cfg up2 stream_up2 t2 l2 req2 (run_events cfg evs st1)
           = (Completion c1, [], run_timers t2 (run_events cfg evs st1))"
    using assms by (rule second_request_hit)
  then show "fst (chat_completions cfg up2 stream_up2 t2 l2 req2 (run_events cfg evs st1)) = Completion c1"
    by simp
next
  show "cc_model c1 = req_model req1"
    using chat_completions_from_provider [OF first provider] by simp
qed

theorem cached_alias_served_witness:
  "fst (chat_completions default_config always_up broken_stream 20 10 chat_hello_alias
     (run_events default_config [other_event]
        (cache_insert default_config 10 (cache_key_of default_config chat_hello)
           (completion_of ''gpt-4'' 10 sample_data) initial_state)))
     = Completion (completion_of ''gpt-4'' 10 sample_data) \<and>
   cc_model (completion_of ''gpt-4'' 10 sample_data) = ''gpt-4'' \<and>
   req_model chat_hello_alias = ''gpt-3.5-turbo''"
proof -
  have provider: "[Str ''deepseek/deepseek-r1-0528:free''] \<noteq> []"
    by simp
  have fresh: "\<forall>x \<in> set (timers initial_state). snd x \<noteq> cache_key_of default_config chat_hello"
    by (simp add: initial_state_def)
  have early: "(20::nat) < 0 + 10 + timeout_delay (CACHE_TTL default_config)"
    by (simp add: default_delay)
  from cached_alias_served [OF first_hello provider fresh other_event_on_time hello_alias_same early,
      of always_up broken_stream 10]
  show ?thesis
    by (simp add: chat_hello_def chat_hello_alias_def)
qed


text \<open>
  Claim C9 says that the order of the fields inside \<^verbatim>\<open>options\<close> is normalised before the
  key is made, so that two requests that differ only in that order get the same key. The
  key is \<^verbatim>\<open>JSON.stringify\<close> of the fields as they come: the same two options in the other
  order give another key.
\<close>

theorem option_order_counterexample:
  "set two_options = set two_options_swapped \<and>
   generateCacheKey (Str ''deepseek/deepseek-r1-0528:free'') user_hello two_options
     \<noteq> generateCacheKey (Str ''deepseek/deepseek-r1-0528:free'') user_hello two_options_swapped"
proof
  show "set two_options = set two_options_swapped"
    by (auto simp: two_options_def two_options_swapped_def)
  then show "generateCacheKey (Str ''deepseek/deepseek-r1-0528:free'') user_hello two_options
     \<noteq> generateCacheKey (Str ''deepseek/deepseek-r1-0528:free'') user_hello two_options_swapped"
    by (intro cache_key_order) (simp_all add: two_options_def two_options_swapped_def)
qed

text \<open>
  Claim C9, amended: the cache key keeps the order of the option fields. For two requests
  with the same resolved model and messages whose options hold the same fields (names
  pairwise different, none an array index), the keys are equal exactly when the fields come
  in the same order; in any other order the second request misses.
\<close>

theorem cache_key_field_order:
  assumes "distinct (map fst options1)" and "distinct (map fst options2)"
    and "set options1 = set options2"
  shows "(generateCacheKey model messages options1 = generateCacheKey model messages options2)
           = (options1 = options2)"
proof (cases "options1 = options2")
  case True
  then show ?thesis by simp
next
  case False
  with assms have "generateCacheKey model messages options1 \<noteq> generateCacheKey model messages options2"
    by (intro cache_key_order)
  with False show ?thesis by simp
qed

theorem cache_key_field_order_witness:
  "generateCacheKey (Str ''qwen/qwen3-coder:free'') user_hello three_options
     \<noteq> generateCacheKey (Str ''qwen/qwen3-coder:free'') user_hello three_options_rotated"
proof -
  have h1: "distinct (map fst three_options)"
    by (simp add: three_options_def)
  have h2: "distinct (map fst three_options_rotated)"
    by (simp add: three_options_rotated_def)
  have h3: "set three_options = set three_options_rotated"
    by (auto simp: three_options_def three_options_rotated_def)
  have "three_options \<noteq> three_options_rotated"
    by (simp add: three_options_def three_options_rotated_def)
  with cache_key_field_order [OF h1 h2 h3, of "Str ''qwen/qwen3-coder:free''" user_hello]
  show ?thesis
    by simp
qed

section \<open>Rate limiting: the claim\<close>




end
